theory Spec2Isabelle
  imports Complex_Main "HOL-Library.Sublist"
begin

section \<open>Data model\<close>

text \<open>
  A JavaScript \<open>number\<close> is modelled by a \<^typ>\<open>real\<close>: the arithmetic of the editor
  (\<open>Math.max\<close>, \<open>Math.min\<close>, products and sums of coordinates) is read in exact
  arithmetic. An optional field (\<open>rotation?: number\<close>) is an \<open>option\<close>, with
  \<open>None\<close> for a field that is absent. Record fields carry a prefix, since the bare
  names (\<open>id\<close>, \<open>x\<close>, \<open>y\<close>) are taken.
\<close>

text \<open>\<open>interface DraggableImage\<close> of the builder and project pages.\<close>

record DraggableImage =
  img_id :: string
  img_url :: string
  img_x :: real
  img_y :: real
  img_width :: real
  img_height :: real
  img_rotation :: "real option"
  img_flipHorizontal :: "bool option"

text \<open>\<open>interface BackgroundImage\<close>; \<open>zIndex\<close> is -1, 0 or 1.\<close>

record BackgroundImage =
  bg_url :: string
  bg_x :: real
  bg_y :: real
  bg_width :: real
  bg_height :: real
  bg_zIndex :: int

text \<open>The React state of a page that the scene operations read and write.\<close>

record PageState =
  selectedImageUrls :: "string list"
  draggableImages :: "DraggableImage list"
  backgroundImage :: "BackgroundImage option"
  selectedImageId :: "string option"

section \<open>Scene operations of the pages\<close>

text \<open>\<open>Array.prototype.findIndex\<close>: the first index whose element satisfies the
  predicate; \<open>None\<close> stands for the result \<open>-1\<close>.\<close>

fun findIndex :: "('a \<Rightarrow> bool) \<Rightarrow> 'a list \<Rightarrow> nat option" where
  "findIndex p [] = None"
| "findIndex p (a # as) = (if p a then Some 0 else map_option Suc (findIndex p as))"

text \<open>\<open>bringToFront\<close>: copy the list, splice the element at \<open>idx\<close> out, push it.\<close>

definition bringToFront :: "string \<Rightarrow> DraggableImage list \<Rightarrow> DraggableImage list" where
  "bringToFront imageId prev =
     (case findIndex (\<lambda>img. img_id img = imageId) prev of
        None \<Rightarrow> prev
      | Some idx \<Rightarrow>
          (let next = take idx prev @ drop (Suc idx) prev;
               item = prev ! idx
           in next @ [item]))"

text \<open>\<open>sendToBack\<close>: copy the list, splice the element at \<open>idx\<close> out, unshift it.\<close>

definition sendToBack :: "string \<Rightarrow> DraggableImage list \<Rightarrow> DraggableImage list" where
  "sendToBack imageId prev =
     (case findIndex (\<lambda>img. img_id img = imageId) prev of
        None \<Rightarrow> prev
      | Some idx \<Rightarrow>
          (let next = take idx prev @ drop (Suc idx) prev;
               item = prev ! idx
           in item # next))"

text \<open>\<open>removeFromMoodboard\<close>: two state updates, each a \<open>filter\<close>.\<close>

definition removeFromMoodboard :: "string \<Rightarrow> PageState \<Rightarrow> PageState" where
  "removeFromMoodboard imageUrl st =
     st\<lparr>selectedImageUrls := filter (\<lambda>u. u \<noteq> imageUrl) (selectedImageUrls st),
        draggableImages := filter (\<lambda>img. img_url img \<noteq> imageUrl) (draggableImages st)\<rparr>"

text \<open>\<open>Array.from(new Set(xs))\<close>: the distinct elements in the order of their first
  occurrence.\<close>

fun uniqueInOrder :: "'a list \<Rightarrow> 'a list" where
  "uniqueInOrder [] = []"
| "uniqueInOrder (a # as) = a # filter (\<lambda>b. b \<noteq> a) (uniqueInOrder as)"

text \<open>The effect that runs after every change of \<open>draggableImages\<close> and recomputes the
  selected URLs from the layers.\<close>

definition syncSelectedImageUrls :: "PageState \<Rightarrow> PageState" where
  "syncSelectedImageUrls st =
     st\<lparr>selectedImageUrls := uniqueInOrder (map img_url (draggableImages st))\<rparr>"


text \<open>\<open>Number.prototype.toString\<close> of a non-negative integer: its decimal digits.\<close>

definition digit_char :: "nat \<Rightarrow> char" where
  "digit_char d = ''0123456789'' ! d"

fun string_of_nat :: "nat \<Rightarrow> string" where
  "string_of_nat n =
     (if n < 10 then [digit_char n]
      else string_of_nat (n div 10) @ [digit_char (n mod 10)])"

declare string_of_nat.simps [simp del]

text \<open>\<open>addToMoodboard\<close>. The three readings of the environment are arguments:
  \<open>now\<close> is the value of \<open>Date.now()\<close> (milliseconds, a non-negative integer),
  \<open>rand1\<close> and \<open>rand2\<close> are the two results of \<open>Math.random()\<close>, each in
  \<open>[0, 1)\<close>. The template literal builds the id from the URL, a dash and the
  timestamp. The new layer has no \<open>rotation\<close> and no \<open>flipHorizontal\<close> field.
  The position is computed in exact arithmetic, where the source rounds to a double:
  the model gives the range of the position and nothing about two positions being
  different.\<close>

definition addToMoodboard :: "nat \<Rightarrow> real \<Rightarrow> real \<Rightarrow> string \<Rightarrow> PageState \<Rightarrow> PageState" where
  "addToMoodboard now rand1 rand2 imageUrl st =
     (let newDraggableImage =
            \<lparr>img_id = imageUrl @ ''-'' @ string_of_nat now,
             img_url = imageUrl,
             img_x = rand1 * 300 + 50,
             img_y = rand2 * 200 + 50,
             img_width = 120,
             img_height = 120,
             img_rotation = None,
             img_flipHorizontal = None\<rparr>
      in st\<lparr>selectedImageUrls :=
              (if imageUrl \<in> set (selectedImageUrls st) then selectedImageUrls st
               else selectedImageUrls st @ [imageUrl]),
            draggableImages := draggableImages st @ [newDraggableImage]\<rparr>)"

text \<open>\<open>getInstanceCount\<close>: a \<open>Map\<close> from URL to count is filled by one pass over
  the layers, \<open>(countMap.get(url) || 0) + 1\<close> at each; the query reads
  \<open>countMap.get(url) || 0\<close>.\<close>

definition countStep :: "DraggableImage \<Rightarrow> (string \<rightharpoonup> nat) \<Rightarrow> (string \<rightharpoonup> nat)" where
  "countStep img m = m(img_url img \<mapsto> (case m (img_url img) of None \<Rightarrow> 0 | Some c \<Rightarrow> c) + 1)"

definition countMap :: "DraggableImage list \<Rightarrow> (string \<rightharpoonup> nat)" where
  "countMap imgs = fold countStep imgs Map.empty"

definition getInstanceCount :: "DraggableImage list \<Rightarrow> string \<Rightarrow> nat" where
  "getInstanceCount imgs url = (case countMap imgs url of None \<Rightarrow> 0 | Some c \<Rightarrow> c)"

text \<open>The state of a page when it mounts with nothing stored.\<close>

definition emptyPage :: PageState where
  "emptyPage = \<lparr>selectedImageUrls = [], draggableImages = [],
                 backgroundImage = None, selectedImageId = None\<rparr>"

section \<open>The canvas editor\<close>

text \<open>\<open>type FurnitureItem\<close> of the editor component.\<close>

record FurnitureItem =
  item_id :: string
  item_url :: string
  item_x :: real
  item_y :: real
  item_width :: real
  item_height :: real
  item_rotation :: "real option"
  item_shadow :: "bool option"
  item_blendMode :: "string option"
  item_flipHorizontal :: "bool option"

text \<open>A position \<open>{ x, y }\<close>.\<close>

record Pos =
  pos_x :: real
  pos_y :: real

text \<open>What the editor reads and writes of the Konva stage: its size and, for each
  \<open>Transformer\<close> node that \<open>stage.find('Transformer')\<close> returns, whether it is
  visible. Everything else the stage holds (the drawn images, the overlay layers) lives in
  the extension of the record and is never written by the editor's handlers.\<close>

record Stage =
  stage_width :: real
  stage_height :: real
  transformers :: "bool list"

text \<open>The size of the stage. The variant with the shared transformer
  (\<open>CanvasEditor.tsx\<close>) makes the stage as large as the canvas; the other variant
  enlarges it for dragging room.\<close>

definition stageWidth_fitted :: "real \<Rightarrow> real" where
  "stageWidth_fitted width = width"

definition stageHeight_fitted :: "real \<Rightarrow> real" where
  "stageHeight_fitted height = height"

definition stageWidth_expanded :: "real \<Rightarrow> real" where
  "stageWidth_expanded width = max (width * 1.5) 1440"

definition stageHeight_expanded :: "real \<Rightarrow> real" where
  "stageHeight_expanded height = max (height * 1.5) 810"

subsection \<open>Dragging\<close>

text \<open>\<open>dragBoundFunc\<close> of an image node (only in \<open>CanvasEditor.tsx\<close>). The stage
  may be missing (\<open>stage?.width() || 0\<close>).\<close>

definition dragBoundFunc :: "'a Stage_scheme option \<Rightarrow> FurnitureItem \<Rightarrow> Pos \<Rightarrow> Pos" where
  "dragBoundFunc stage item pos =
     (let stageWidth = (case stage of None \<Rightarrow> 0 | Some s \<Rightarrow> stage_width s);
          stageHeight = (case stage of None \<Rightarrow> 0 | Some s \<Rightarrow> stage_height s);
          maxX = max 0 (stageWidth - item_width item);
          maxY = max 0 (stageHeight - item_height item);
          clampedX = min (max 0 (pos_x pos)) maxX;
          clampedY = min (max 0 (pos_y pos)) maxY
      in \<lparr>pos_x = clampedX, pos_y = clampedY\<rparr>)"

text \<open>\<open>handleDragMove\<close>: the items with the given id take the position; the result is
  what \<open>onItemsChange\<close> receives.\<close>

definition handleDragMove :: "FurnitureItem list \<Rightarrow> string \<Rightarrow> Pos \<Rightarrow> FurnitureItem list" where
  "handleDragMove items ident pos =
     map (\<lambda>it. if item_id it = ident then it\<lparr>item_x := pos_x pos, item_y := pos_y pos\<rparr> else it)
       items"

text \<open>The pages build the \<open>items\<close> property from their layers
  (\<open>rotation: d.rotation || 0\<close>, \<open>flipHorizontal: d.flipHorizontal || false\<close>) and
  store what \<open>onItemsChange\<close> hands back.\<close>

definition itemsOfPage :: "DraggableImage list \<Rightarrow> FurnitureItem list" where
  "itemsOfPage draggable =
     map (\<lambda>d. \<lparr>item_id = img_id d, item_url = img_url d, item_x = img_x d, item_y = img_y d,
               item_width = img_width d, item_height = img_height d,
               item_rotation = Some (case img_rotation d of None \<Rightarrow> 0 | Some r \<Rightarrow> r),
               item_shadow = None, item_blendMode = None,
               item_flipHorizontal =
                 Some (case img_flipHorizontal d of None \<Rightarrow> False | Some b \<Rightarrow> b)\<rparr>)
       draggable"

definition onItemsChange :: "FurnitureItem list \<Rightarrow> DraggableImage list" where
  "onItemsChange next =
     map (\<lambda>n. \<lparr>img_id = item_id n, img_url = item_url n, img_x = item_x n, img_y = item_y n,
               img_width = item_width n, img_height = item_height n,
               img_rotation = item_rotation n,
               img_flipHorizontal = item_flipHorizontal n\<rparr>)
       next"

text \<open>One pointer move while the image at index \<open>i\<close> is dragged. Konva passes the
  pointer's position through the node's \<open>dragBoundFunc\<close> when it has one, moves the node
  there and fires \<open>onDragMove\<close> with the node's position. In \<open>CanvasEditor.tsx\<close> the
  node has a \<open>dragBoundFunc\<close>; in the variant with the enlarged stage it has none.\<close>

definition dragMove ::
  "'a Stage_scheme option \<Rightarrow> DraggableImage list \<Rightarrow> nat \<times> Pos \<Rightarrow> DraggableImage list" where
  "dragMove stage draggable ev =
     (let its = itemsOfPage draggable; item = its ! fst ev
      in onItemsChange (handleDragMove its (item_id item) (dragBoundFunc stage item (snd ev))))"

definition dragMove_expanded :: "DraggableImage list \<Rightarrow> nat \<times> Pos \<Rightarrow> DraggableImage list" where
  "dragMove_expanded draggable ev =
     (let its = itemsOfPage draggable; item = its ! fst ev
      in onItemsChange (handleDragMove its (item_id item) (snd ev)))"

subsection \<open>Resizing and rotating\<close>

text \<open>The fields of the transformed Konva node that \<open>handleTransformEnd\<close> reads.\<close>

record KonvaNode =
  node_x :: real
  node_y :: real
  node_scaleX :: real
  node_scaleY :: real
  node_rotation :: real

text \<open>\<open>handleTransformEnd\<close> (the same in both variants): read the scale, reset it
  on the node, and fold it into the size of the items with the given id.\<close>

definition handleTransformEnd ::
  "FurnitureItem list \<Rightarrow> string \<Rightarrow> KonvaNode \<Rightarrow> FurnitureItem list \<times> KonvaNode" where
  "handleTransformEnd items ident node0 =
     (let scaleX = node_scaleX node0;
          scaleY = node_scaleY node0;
          node = node0\<lparr>node_scaleX := 1, node_scaleY := 1\<rparr>;
          next = map (\<lambda>it. if item_id it = ident
                             then it\<lparr>item_x := node_x node,
                                    item_y := node_y node,
                                    item_width := max 10 (item_width it * scaleX),
                                    item_height := max 10 (item_height it * scaleY),
                                    item_rotation := Some (node_rotation node)\<rparr>
                             else it) items
      in (next, node))"

subsection \<open>Export\<close>

text \<open>The argument of \<open>stage.toDataURL\<close>.\<close>

record ToDataURLConfig =
  cfg_pixelRatio :: real
  cfg_mimeType :: string
  cfg_quality :: "real option"
  cfg_x :: real
  cfg_y :: real
  cfg_width :: real
  cfg_height :: real

text \<open>An exception thrown by the drawing surface, with its message.\<close>

datatype error = Thrown string

text \<open>\<open>doExport\<close>. \<open>toDataURL\<close> belongs to Konva and the browser and is an argument:
  it reads the stage as it is at the call and either returns a data URL or throws. The
  result is the stage reference afterwards, the requests made to \<open>toDataURL\<close> in order,
  and either the exception that left the function or the calls of \<open>onExport\<close>
  (\<open>onExport\<close> is optional: the flag says whether the host passed one).
  \<open>stage.draw()\<close> changes nothing the model holds.\<close>

definition doExport ::
  "('a Stage_scheme \<Rightarrow> ToDataURLConfig \<Rightarrow> error + string) \<Rightarrow> real \<Rightarrow> real \<Rightarrow> bool
     \<Rightarrow> 'a Stage_scheme option
     \<Rightarrow> 'a Stage_scheme option \<times> ToDataURLConfig list \<times> (error + (string \<times> string) list)" where
  "doExport toDataURL width height onExport stageRef =
     (case stageRef of
        None \<Rightarrow> (None, [], Inr [])
      | Some stage \<Rightarrow>
          (let prevVisibility = transformers stage;
               hidden = stage\<lparr>transformers := map (\<lambda>t. False) (transformers stage)\<rparr>;
               pngConfig = \<lparr>cfg_pixelRatio = 2, cfg_mimeType = ''image/png'',
                            cfg_quality = None,
                            cfg_x = 0, cfg_y = 0, cfg_width = width, cfg_height = height\<rparr>;
               jpegConfig = \<lparr>cfg_pixelRatio = 2, cfg_mimeType = ''image/jpeg'',
                             cfg_quality = Some 0.95,
                             cfg_x = 0, cfg_y = 0, cfg_width = width, cfg_height = height\<rparr>
           in case toDataURL hidden pngConfig of
                Inl e \<Rightarrow> (Some hidden, [pngConfig], Inl e)
              | Inr dataUrlPng \<Rightarrow>
                  (case toDataURL hidden jpegConfig of
                     Inl e \<Rightarrow> (Some hidden, [pngConfig, jpegConfig], Inl e)
                   | Inr dataUrlJpeg \<Rightarrow>
                       (let restored =
                              hidden\<lparr>transformers :=
                                 map (\<lambda>i. prevVisibility ! i) [0..<length (transformers hidden)]\<rparr>
                        in (Some restored, [pngConfig, jpegConfig],
                            Inr (if onExport then [(dataUrlPng, dataUrlJpeg)] else []))))))"

text \<open>The effect on \<open>requestExportToken\<close>: \<open>prevExportTokenRef\<close> starts as
  \<open>null\<close>; \<open>requestExportToken ?? null\<close> makes an absent token \<open>null\<close> (here
  \<open>None\<close>). The result is the reference, the stage reference, and what \<open>doExport\<close>
  did when the effect called it.\<close>

definition exportEffect ::
  "('a Stage_scheme \<Rightarrow> ToDataURLConfig \<Rightarrow> error + string) \<Rightarrow> real \<Rightarrow> real \<Rightarrow> bool
     \<Rightarrow> real option \<times> 'a Stage_scheme option \<Rightarrow> real option
     \<Rightarrow> (real option \<times> 'a Stage_scheme option)
         \<times> (ToDataURLConfig list \<times> (error + (string \<times> string) list)) option" where
  "exportEffect toDataURL width height onExport refs requestExportToken =
     (let prevExportTokenRef = fst refs; stageRef = snd refs; token = requestExportToken
      in if prevExportTokenRef = None then ((token, stageRef), None)
         else if token \<noteq> None \<and> token \<noteq> prevExportTokenRef
         then (let r = doExport toDataURL width height onExport stageRef
               in ((token, fst r), Some (snd r)))
         else ((prevExportTokenRef, stageRef), None))"

text \<open>The effect run once for each token the editor observes, in order.\<close>

fun observeTokens ::
  "('a Stage_scheme \<Rightarrow> ToDataURLConfig \<Rightarrow> error + string) \<Rightarrow> real \<Rightarrow> real \<Rightarrow> bool
     \<Rightarrow> real option \<times> 'a Stage_scheme option \<Rightarrow> real option list
     \<Rightarrow> (ToDataURLConfig list \<times> (error + (string \<times> string) list)) option list" where
  "observeTokens toDataURL width height onExport refs [] = []"
| "observeTokens toDataURL width height onExport refs (t # ts) =
     (let r = exportEffect toDataURL width height onExport refs t
      in snd r # observeTokens toDataURL width height onExport (fst r) ts)"

subsection \<open>Masking and the rendered tree\<close>

text \<open>\<open>type MaskMode = "none" | "brush" | "polygon"\<close>.\<close>

datatype MaskMode = mask_none | mask_brush | mask_polygon

text \<open>\<open>polygonKonvaPoints\<close>: the points flattened to \<open>[x0, y0, x1, y1, ...]\<close>.\<close>

definition polygonKonvaPoints :: "Pos list \<Rightarrow> real list" where
  "polygonKonvaPoints polygonPoints = concat (map (\<lambda>p. [pos_x p, pos_y p]) polygonPoints)"

text \<open>The calls a clip function makes on the drawing context.\<close>

datatype PathCmd = BeginPath | MoveTo real real | LineTo real real | ClosePath

text \<open>The loop \<open>for (let i = 2; i < pts.length; i += 2) ctx.lineTo(pts[i], pts[i + 1])\<close>,
  as a recursion over the scalars from index 2 on. The flattened list has even length, so
  the last equation is reached with the empty list only.\<close>

fun lineTos :: "real list \<Rightarrow> PathCmd list" where
  "lineTos (a # b # rest) = LineTo a b # lineTos rest"
| "lineTos rest = []"

text \<open>\<open>itemsClipFunc\<close>: a clip path for a polygon of at least six scalars,
  \<open>undefined\<close> (here \<open>None\<close>) otherwise, also in brush mode.\<close>

definition itemsClipFunc :: "MaskMode \<Rightarrow> real list \<Rightarrow> bool \<Rightarrow> PathCmd list option" where
  "itemsClipFunc maskMode pts brushMaskImage =
     (if maskMode = mask_polygon \<and> 6 \<le> length pts
      then Some ([BeginPath, MoveTo (pts ! 0) (pts ! 1)] @ lineTos (drop 2 pts) @ [ClosePath])
      else if maskMode = mask_brush \<and> brushMaskImage then None
      else None)"

text \<open>The nodes the component returns inside its \<open>Stage\<close>. An image node carries
  whether its image has loaded, its rectangle, its rotation and its horizontal scale.\<close>

datatype KonvaShape =
    KonvaImage bool real real real real real real
  | Line "real list"
  | Rect real real real real
  | Transformer

record KonvaLayer =
  layer_clipFunc :: "PathCmd list option"
  layer_children :: "KonvaShape list"

text \<open>The layers of the returned tree, in order: background, items (with the shared
  transformer), brush layer, and in polygon mode the authoring overlay. \<open>loaded\<close> tells
  which URLs \<open>useHTMLImage\<close> has an image for. No layer of the tree is given a
  \<open>clipFunc\<close> property.\<close>

definition renderLayers ::
  "(string \<Rightarrow> bool) \<Rightarrow> real \<Rightarrow> real \<Rightarrow> string option \<Rightarrow> FurnitureItem list
     \<Rightarrow> MaskMode \<Rightarrow> Pos list \<Rightarrow> KonvaLayer list" where
  "renderLayers loaded width height background items maskMode polygonPoints =
     [\<lparr>layer_clipFunc = None,
       layer_children =
         (case background of
            None \<Rightarrow> []
          | Some url \<Rightarrow> if loaded url then [KonvaImage True 0 0 width height 0 1] else [])\<rparr>,
      \<lparr>layer_clipFunc = None,
       layer_children =
         map (\<lambda>item. KonvaImage (loaded (item_url item))
                        (item_x item) (item_y item) (item_width item) (item_height item)
                        (case item_rotation item of None \<Rightarrow> 0 | Some r \<Rightarrow> r)
                        (if item_flipHorizontal item = Some True then - 1 else 1)) items
         @ [Transformer]\<rparr>,
      \<lparr>layer_clipFunc = None, layer_children = []\<rparr>]
     @ (if maskMode = mask_polygon
        then [\<lparr>layer_clipFunc = None,
               layer_children =
                 (if 2 \<le> length (polygonKonvaPoints polygonPoints)
                  then [Line (polygonKonvaPoints polygonPoints)] else [])
                 @ [Rect 0 0 width height]\<rparr>]
        else [])"

text \<open>The rectangle a dragged layer is kept in by \<open>dragBoundFunc\<close> on a stage of the
  given size.\<close>

definition withinDragBounds :: "real \<Rightarrow> real \<Rightarrow> DraggableImage \<Rightarrow> bool" where
  "withinDragBounds width height d =
     (0 \<le> img_x d \<and> img_x d \<le> max 0 (width - img_width d)
      \<and> 0 \<le> img_y d \<and> img_y d \<le> max 0 (height - img_height d))"

section \<open>Worked examples\<close>

text \<open>A layer as \<open>addToMoodboard\<close> creates it (120 by 120, no rotation, no flip),
  with a given id and position; the examples below are built from it.\<close>

definition sampleLayer :: "string \<Rightarrow> real \<Rightarrow> real \<Rightarrow> DraggableImage" where
  "sampleLayer ident x y =
     \<lparr>img_id = ident, img_url = ''chair.png'', img_x = x, img_y = y,
      img_width = 120, img_height = 120, img_rotation = None, img_flipHorizontal = None\<rparr>"

section \<open>Layer order\<close>

lemma findIndex_None_iff: "findIndex p xs = None \<longleftrightarrow> (\<forall>a \<in> set xs. \<not> p a)"
  by (induction xs) auto

lemma findIndex_Some_bound: "findIndex p xs = Some i \<Longrightarrow> i < length xs \<and> p (xs ! i)"
  by (induction xs arbitrary: i) (auto split: if_splits)

lemma filter_splice:
  assumes "findIndex p xs = Some i"
  shows "filter (\<lambda>a. \<not> p a) (take i xs @ drop (Suc i) xs) = filter (\<lambda>a. \<not> p a) xs"
proof -
  from assms have i: "i < length xs" and p: "p (xs ! i)"
    using findIndex_Some_bound by blast+
  have "xs = take i xs @ xs ! i # drop (Suc i) xs"
    using i by (rule id_take_nth_drop)
  then have "filter (\<lambda>a. \<not> p a) xs
      = filter (\<lambda>a. \<not> p a) (take i xs @ xs ! i # drop (Suc i) xs)"
    by simp
  also have "\<dots> = filter (\<lambda>a. \<not> p a) (take i xs @ drop (Suc i) xs)"
    using p by simp
  finally show ?thesis by simp
qed

text \<open>With pairwise different keys, splicing the first match out removes exactly
  the elements with that key.\<close>

lemma splice_distinct:
  "distinct (map f xs) \<Longrightarrow> a \<in> set xs \<Longrightarrow> findIndex (\<lambda>b. f b = f a) xs = Some i
   \<Longrightarrow> xs ! i = a \<and> take i xs @ drop (Suc i) xs = filter (\<lambda>b. f b \<noteq> f a) xs"
proof (induction xs arbitrary: i)
  case Nil
  from Nil.prems(2) show ?case by simp
next
  case (Cons b bs)
  show ?case
  proof (cases "f b = f a")
    case True
    from Cons.prems(1) have nb: "f b \<notin> f ` set bs" by simp
    with True have others: "\<forall>c \<in> set bs. f c \<noteq> f a" by (metis imageI)
    then have "a \<notin> set bs" by (metis (full_types))
    with Cons.prems(2) have ab: "b = a" by simp
    from Cons.prems(3) True have i: "i = 0" by simp
    from others have "filter (\<lambda>c. f c \<noteq> f a) bs = bs"
      by (simp add: filter_id_conv)
    with ab i show ?thesis by simp
  next
    case False
    from Cons.prems(3) False have "\<exists>j. findIndex (\<lambda>b. f b = f a) bs = Some j \<and> i = Suc j"
      by auto
    then obtain j where j: "findIndex (\<lambda>b. f b = f a) bs = Some j" and i: "i = Suc j"
      by blast
    from False Cons.prems(2) have m: "a \<in> set bs" by auto
    from Cons.prems(1) have d: "distinct (map f bs)" by simp
    from Cons.IH [OF d m j]
    have "bs ! j = a \<and> take j bs @ drop (Suc j) bs = filter (\<lambda>c. f c \<noteq> f a) bs" .
    with False i show ?thesis by simp
  qed
qed

lemma findIndex_member:
  assumes "a \<in> set xs"
  shows "\<exists>i. findIndex (\<lambda>b. f b = f a) xs = Some i"
proof (cases "findIndex (\<lambda>b. f b = f a) xs")
  case None
  then have "\<forall>b \<in> set xs. f b \<noteq> f a" by (simp add: findIndex_None_iff)
  with assms show ?thesis by (metis (full_types))
next
  case (Some i)
  then show ?thesis by blast
qed

lemma bringToFront_distinct:
  assumes d: "distinct (map img_id prev)" and m: "layer \<in> set prev"
  shows "bringToFront (img_id layer) prev
           = filter (\<lambda>img. img_id img \<noteq> img_id layer) prev @ [layer]"
proof -
  from findIndex_member [OF m, of img_id]
  obtain idx where idx: "findIndex (\<lambda>img. img_id img = img_id layer) prev = Some idx"
    by blast
  from splice_distinct [OF d m idx] idx show ?thesis
    by (simp add: bringToFront_def Let_def)
qed

lemma sendToBack_distinct:
  assumes d: "distinct (map img_id prev)" and m: "layer \<in> set prev"
  shows "sendToBack (img_id layer) prev
           = layer # filter (\<lambda>img. img_id img \<noteq> img_id layer) prev"
proof -
  from findIndex_member [OF m, of img_id]
  obtain idx where idx: "findIndex (\<lambda>img. img_id img = img_id layer) prev = Some idx"
    by blast
  from splice_distinct [OF d m idx] idx show ?thesis
    by (simp add: sendToBack_def Let_def)
qed

text \<open>Each of the two operations keeps the layers with another id in their order,
  whatever the ids are.\<close>

lemma bringToFront_others:
  "filter (\<lambda>img. img_id img \<noteq> imageId) (bringToFront imageId prev)
     = filter (\<lambda>img. img_id img \<noteq> imageId) prev"
proof (cases "findIndex (\<lambda>img. img_id img = imageId) prev")
  case None
  then show ?thesis by (simp add: bringToFront_def)
next
  case (Some idx)
  from filter_splice [OF Some] findIndex_Some_bound [OF Some]
  show ?thesis using Some by (simp add: bringToFront_def Let_def)
qed

lemma sendToBack_others:
  "filter (\<lambda>img. img_id img \<noteq> imageId) (sendToBack imageId prev)
     = filter (\<lambda>img. img_id img \<noteq> imageId) prev"
proof (cases "findIndex (\<lambda>img. img_id img = imageId) prev")
  case None
  then show ?thesis by (simp add: sendToBack_def)
next
  case (Some idx)
  from filter_splice [OF Some] findIndex_Some_bound [OF Some]
  show ?thesis using Some by (simp add: sendToBack_def Let_def)
qed

lemma findIndex_present:
  assumes "imageId \<in> img_id ` set prev"
  shows "\<exists>idx. findIndex (\<lambda>img. img_id img = imageId) prev = Some idx"
proof (cases "findIndex (\<lambda>img. img_id img = imageId) prev")
  case None
  then have "\<forall>a \<in> set prev. img_id a \<noteq> imageId" by (simp add: findIndex_None_iff)
  with assms show ?thesis by (metis imageE)
next
  case (Some idx)
  then show ?thesis by blast
qed

text \<open>
  Claim C7. For every scene and every layer id present in it, \<open>bringToFront\<close> followed
  by \<open>sendToBack\<close> with that id leaves every other layer in its original relative
  order: the layers with another id are the same list before and after, as they are after
  each of the two operations alone. \<open>bringToFront\<close> puts a layer with the id at the end,
  \<open>sendToBack\<close> puts one at the start.
\<close>

theorem bringToFront_sendToBack_round_trip:
  assumes present: "imageId \<in> img_id ` set prev"
  shows "filter (\<lambda>img. img_id img \<noteq> imageId) (sendToBack imageId (bringToFront imageId prev))
           = filter (\<lambda>img. img_id img \<noteq> imageId) prev
       \<and> filter (\<lambda>img. img_id img \<noteq> imageId) (bringToFront imageId prev)
           = filter (\<lambda>img. img_id img \<noteq> imageId) prev
       \<and> filter (\<lambda>img. img_id img \<noteq> imageId) (sendToBack imageId prev)
           = filter (\<lambda>img. img_id img \<noteq> imageId) prev
       \<and> img_id (last (bringToFront imageId prev)) = imageId
       \<and> img_id (hd (sendToBack imageId prev)) = imageId
       \<and> img_id (hd (sendToBack imageId (bringToFront imageId prev))) = imageId"
proof -
  have both: "filter (\<lambda>img. img_id img \<noteq> imageId) (sendToBack imageId (bringToFront imageId prev))
           = filter (\<lambda>img. img_id img \<noteq> imageId) prev"
    by (simp only: sendToBack_others bringToFront_others)
  from findIndex_present [OF present]
  obtain idx where idx: "findIndex (\<lambda>img. img_id img = imageId) prev = Some idx" by blast
  from findIndex_Some_bound [OF idx] have hit: "img_id (prev ! idx) = imageId" by simp
  from idx hit have atEnd: "img_id (last (bringToFront imageId prev)) = imageId"
    by (simp add: bringToFront_def Let_def)
  from idx hit have atStart: "img_id (hd (sendToBack imageId prev)) = imageId"
    by (simp add: sendToBack_def Let_def)
  from idx have "bringToFront imageId prev = (take idx prev @ drop (Suc idx) prev) @ [prev ! idx]"
    by (simp add: bringToFront_def Let_def)
  then have "prev ! idx \<in> set (bringToFront imageId prev)" by simp
  with hit have "imageId \<in> img_id ` set (bringToFront imageId prev)" by (metis imageI)
  from findIndex_present [OF this]
  obtain j where j: "findIndex (\<lambda>img. img_id img = imageId) (bringToFront imageId prev) = Some j"
    by blast
  from findIndex_Some_bound [OF j] have "img_id (bringToFront imageId prev ! j) = imageId" by simp
  with j have "img_id (hd (sendToBack imageId (bringToFront imageId prev))) = imageId"
    by (simp add: sendToBack_def Let_def)
  with both atEnd atStart show ?thesis
    by (simp only: sendToBack_others bringToFront_others simp_thms)
qed

text \<open>With the layers \<open>A, B, C\<close> and the id of \<open>B\<close>: \<open>A, C, B\<close> after
  \<open>bringToFront\<close>, \<open>B, A, C\<close> after \<open>sendToBack\<close>, and \<open>A, C\<close> are the others.\<close>

theorem bringToFront_sendToBack_round_trip_witness:
  "''B'' \<in> img_id ` set [sampleLayer ''A'' 50 50, sampleLayer ''B'' 60 60, sampleLayer ''C'' 70 70]
   \<and> bringToFront ''B'' [sampleLayer ''A'' 50 50, sampleLayer ''B'' 60 60, sampleLayer ''C'' 70 70]
       = [sampleLayer ''A'' 50 50, sampleLayer ''C'' 70 70, sampleLayer ''B'' 60 60]
   \<and> sendToBack ''B''
        (bringToFront ''B'' [sampleLayer ''A'' 50 50, sampleLayer ''B'' 60 60, sampleLayer ''C'' 70 70])
       = [sampleLayer ''B'' 60 60, sampleLayer ''A'' 50 50, sampleLayer ''C'' 70 70]
   \<and> filter (\<lambda>img. img_id img \<noteq> ''B'')
        (sendToBack ''B''
          (bringToFront ''B''
            [sampleLayer ''A'' 50 50, sampleLayer ''B'' 60 60, sampleLayer ''C'' 70 70]))
       = [sampleLayer ''A'' 50 50, sampleLayer ''C'' 70 70]"
  using bringToFront_sendToBack_round_trip
    [of "''B''" "[sampleLayer ''A'' 50 50, sampleLayer ''B'' 60 60, sampleLayer ''C'' 70 70]"]
  by (simp add: sendToBack_def bringToFront_def sampleLayer_def)

text \<open>When the ids are pairwise different, the result of the two operations is the
  layer itself followed by the other layers.\<close>

lemma bringToFront_then_sendToBack_distinct:
  assumes d: "distinct (map img_id prev)" and m: "layer \<in> set prev"
  shows "sendToBack (img_id layer) (bringToFront (img_id layer) prev)
           = layer # filter (\<lambda>img. img_id img \<noteq> img_id layer) prev
       \<and> (sendToBack (img_id layer) (bringToFront (img_id layer) prev) = prev) = (hd prev = layer)"
proof -
  let ?others = "filter (\<lambda>img. img_id img \<noteq> img_id layer) prev"
  have mid: "bringToFront (img_id layer) prev = ?others @ [layer]"
    using d m by (rule bringToFront_distinct)
  have "distinct (map img_id ?others)"
    using d by (rule distinct_map_filter)
  moreover have "img_id layer \<notin> img_id ` set ?others" by auto
  ultimately have d': "distinct (map img_id (?others @ [layer]))" by simp
  have m': "layer \<in> set (?others @ [layer])" by simp
  have res: "sendToBack (img_id layer) (bringToFront (img_id layer) prev) = layer # ?others"
    using sendToBack_distinct [OF d' m'] mid by simp
  have "(layer # ?others = prev) = (hd prev = layer)"
  proof
    assume "layer # ?others = prev"
    then have "hd prev = hd (layer # ?others)" by simp
    then show "hd prev = layer" by simp
  next
    assume h: "hd prev = layer"
    from m have "prev \<noteq> []" by auto
    with h have p: "prev = layer # tl prev" by (metis list.collapse)
    with d have "img_id layer \<notin> img_id ` set (tl prev)"
      by (metis distinct.simps(2) list.simps(9) list.set_map)
    then have "\<forall>c \<in> set (tl prev). img_id c \<noteq> img_id layer" by (metis imageI)
    then have "filter (\<lambda>img. img_id img \<noteq> img_id layer) (tl prev) = tl prev"
      by (simp add: filter_id_conv)
    then have "filter (\<lambda>img. img_id img \<noteq> img_id layer) (layer # tl prev) = tl prev" by simp
    with p have "?others = tl prev" by simp
    with p show "layer # ?others = prev" by simp
  qed
  with res show ?thesis by simp
qed

section \<open>Resizing\<close>

text \<open>
  Claim C6. For every item that carries the id of the resized node, \<open>handleTransformEnd\<close>
  sets the width to \<open>max 10 (oldWidth * scaleX)\<close>, the height to
  \<open>max 10 (oldHeight * scaleY)\<close> and the rotation to the node's final angle, whatever the
  rotation was before; so the width and the height are at least 10 afterwards.
\<close>

theorem handleTransformEnd_resizes:
  assumes "k < length items" and "item_id (items ! k) = ident"
  shows "item_width (fst (handleTransformEnd items ident node) ! k)
             = max 10 (item_width (items ! k) * node_scaleX node)
       \<and> item_height (fst (handleTransformEnd items ident node) ! k)
             = max 10 (item_height (items ! k) * node_scaleY node)
       \<and> item_rotation (fst (handleTransformEnd items ident node) ! k) = Some (node_rotation node)
       \<and> 10 \<le> item_width (fst (handleTransformEnd items ident node) ! k)
       \<and> 10 \<le> item_height (fst (handleTransformEnd items ident node) ! k)"
  using assms by (simp add: handleTransformEnd_def Let_def)

text \<open>A layer of 120 by 120 that was rotated by 90 degrees, shrunk to a twentieth of
  its width, doubled in height and turned to 30 degrees: the width stops at 10, the height
  is 240 and the rotation is 30, not 120.\<close>

theorem handleTransformEnd_resizes_witness:
  "0 < length (itemsOfPage [(sampleLayer ''A'' 50 50)\<lparr>img_rotation := Some 90\<rparr>])
   \<and> item_id (itemsOfPage [(sampleLayer ''A'' 50 50)\<lparr>img_rotation := Some 90\<rparr>] ! 0) = ''A''
   \<and> item_rotation (itemsOfPage [(sampleLayer ''A'' 50 50)\<lparr>img_rotation := Some 90\<rparr>] ! 0)
        = Some 90
   \<and> item_width (fst (handleTransformEnd
         (itemsOfPage [(sampleLayer ''A'' 50 50)\<lparr>img_rotation := Some 90\<rparr>]) ''A''
         \<lparr>node_x = 50, node_y = 50, node_scaleX = 1 / 20, node_scaleY = 2,
          node_rotation = 30\<rparr>) ! 0) = 10
   \<and> item_height (fst (handleTransformEnd
         (itemsOfPage [(sampleLayer ''A'' 50 50)\<lparr>img_rotation := Some 90\<rparr>]) ''A''
         \<lparr>node_x = 50, node_y = 50, node_scaleX = 1 / 20, node_scaleY = 2,
          node_rotation = 30\<rparr>) ! 0) = 240
   \<and> item_rotation (fst (handleTransformEnd
         (itemsOfPage [(sampleLayer ''A'' 50 50)\<lparr>img_rotation := Some 90\<rparr>]) ''A''
         \<lparr>node_x = 50, node_y = 50, node_scaleX = 1 / 20, node_scaleY = 2,
          node_rotation = 30\<rparr>) ! 0) = Some 30"
  using handleTransformEnd_resizes
    [of 0 "itemsOfPage [(sampleLayer ''A'' 50 50)\<lparr>img_rotation := Some 90\<rparr>]" "''A''"
        "\<lparr>node_x = 50, node_y = 50, node_scaleX = 1 / 20, node_scaleY = 2,
          node_rotation = 30\<rparr>"]
  by (simp add: itemsOfPage_def sampleLayer_def)

section \<open>Dragging\<close>

lemma dragMove_length: "length (dragMove stage ds ev) = length ds"
  by (simp add: dragMove_def Let_def onItemsChange_def handleDragMove_def itemsOfPage_def)

lemma dragMove_ids: "map img_id (dragMove stage ds ev) = map img_id ds"
  by (simp add: dragMove_def Let_def onItemsChange_def handleDragMove_def itemsOfPage_def
        comp_def if_distrib [of item_id] cong: if_cong)

lemma dragMove_widths: "map img_width (dragMove stage ds ev) = map img_width ds"
  by (simp add: dragMove_def Let_def onItemsChange_def handleDragMove_def itemsOfPage_def
        comp_def if_distrib [of item_width] cong: if_cong)

lemma dragMove_heights: "map img_height (dragMove stage ds ev) = map img_height ds"
  by (simp add: dragMove_def Let_def onItemsChange_def handleDragMove_def itemsOfPage_def
        comp_def if_distrib [of item_height] cong: if_cong)

lemma dragMove_other:
  assumes "k < length ds" and "img_id (ds ! k) \<noteq> img_id (ds ! fst ev)" and "fst ev < length ds"
  shows "img_x (dragMove stage ds ev ! k) = img_x (ds ! k)
       \<and> img_y (dragMove stage ds ev ! k) = img_y (ds ! k)"
  using assms
  by (simp add: dragMove_def Let_def onItemsChange_def handleDragMove_def itemsOfPage_def)

lemma dragMove_target:
  assumes "fst ev < length ds"
  shows "img_x (dragMove (Some st) ds ev ! fst ev)
           = min (max 0 (pos_x (snd ev))) (max 0 (stage_width st - img_width (ds ! fst ev)))
       \<and> img_y (dragMove (Some st) ds ev ! fst ev)
           = min (max 0 (pos_y (snd ev))) (max 0 (stage_height st - img_height (ds ! fst ev)))"
  using assms
  by (simp add: dragMove_def Let_def onItemsChange_def handleDragMove_def itemsOfPage_def
        dragBoundFunc_def)

lemma nth_of_map_eq: "map f xs = map f ys \<Longrightarrow> k < length ys \<Longrightarrow> f (xs ! k) = f (ys ! k)"
  by (metis length_map nth_map)

lemma dragMove_keeps_bounds:
  assumes d: "distinct (map img_id ds)" and j: "fst ev < length ds" and k: "k < length ds"
    and kb: "k = fst ev \<or> withinDragBounds W H (ds ! k)"
    and sw: "stage_width st = W" and sh: "stage_height st = H"
  shows "withinDragBounds W H (dragMove (Some st) ds ev ! k)"
proof -
  let ?r = "dragMove (Some st) ds ev ! k"
  have w: "img_width ?r = img_width (ds ! k)"
    using dragMove_widths k by (rule nth_of_map_eq)
  have h: "img_height ?r = img_height (ds ! k)"
    using dragMove_heights k by (rule nth_of_map_eq)
  show ?thesis
  proof (cases "k = fst ev")
    case True
    from dragMove_target [OF j, of st] True sw sh
    have "img_x ?r = min (max 0 (pos_x (snd ev))) (max 0 (W - img_width (ds ! k)))"
      and "img_y ?r = min (max 0 (pos_y (snd ev))) (max 0 (H - img_height (ds ! k)))"
      by simp_all
    with w h show ?thesis by (simp add: withinDragBounds_def)
  next
    case False
    from k j have "k < length (map img_id ds)" and "fst ev < length (map img_id ds)"
      by simp_all
    with d False have "map img_id ds ! k \<noteq> map img_id ds ! fst ev"
      by (simp only: nth_eq_iff_index_eq not_False_eq_True)
    with k j have "img_id (ds ! k) \<noteq> img_id (ds ! fst ev)" by simp
    from dragMove_other [OF k this j, of "Some st"]
    have "img_x ?r = img_x (ds ! k)" and "img_y ?r = img_y (ds ! k)" by simp_all
    moreover from kb False have "withinDragBounds W H (ds ! k)" by simp
    ultimately show ?thesis using w h by (simp add: withinDragBounds_def)
  qed
qed

lemma dragMoves_invariant:
  assumes d: "distinct (map img_id ds)"
    and sw: "stage_width st = W" and sh: "stage_height st = H"
  shows "(\<forall>ev \<in> set evs. fst ev < length ds) \<Longrightarrow>
         length (foldl (dragMove (Some st)) ds evs) = length ds
       \<and> map img_id (foldl (dragMove (Some st)) ds evs) = map img_id ds
       \<and> (\<forall>k \<in> fst ` set evs. withinDragBounds W H (foldl (dragMove (Some st)) ds evs ! k))"
proof (induction evs rule: rev_induct)
  case Nil
  show ?case by simp
next
  case (snoc ev evs)
  let ?f = "foldl (dragMove (Some st)) ds evs"
  from snoc.prems have all: "\<forall>e \<in> set evs. fst e < length ds" and j: "fst ev < length ds"
    by simp_all
  from snoc.IH [OF all] have len: "length ?f = length ds"
    and ids: "map img_id ?f = map img_id ds"
    and bnd: "\<forall>k \<in> fst ` set evs. withinDragBounds W H (?f ! k)"
    by blast+
  from d ids have d': "distinct (map img_id ?f)" by simp
  from j len have j': "fst ev < length ?f" by simp
  have step: "foldl (dragMove (Some st)) ds (evs @ [ev]) = dragMove (Some st) ?f ev" by simp
  have "\<forall>k \<in> fst ` set (evs @ [ev]). withinDragBounds W H (dragMove (Some st) ?f ev ! k)"
  proof
    fix k assume "k \<in> fst ` set (evs @ [ev])"
    then have kc: "k = fst ev \<or> k \<in> fst ` set evs" by auto
    with all j have "k < length ds" by auto
    with len have k': "k < length ?f" by simp
    from kc bnd have "k = fst ev \<or> withinDragBounds W H (?f ! k)" by blast
    with d' j' k' show "withinDragBounds W H (dragMove (Some st) ?f ev ! k)"
      using sw sh by (rule dragMove_keeps_bounds)
  qed
  moreover have "length (dragMove (Some st) ?f ev) = length ds"
    using len by (simp add: dragMove_length)
  moreover have "map img_id (dragMove (Some st) ?f ev) = map img_id ds"
    using ids by (simp add: dragMove_ids)
  ultimately show ?case unfolding step by blast
qed

text \<open>
  In the variant with the enlarged stage the image nodes have no \<open>dragBoundFunc\<close>:
  a layer dragged to \<open>(-30, 700)\<close> on a 960 by 540 canvas is stored there. In the
  variant with the fitted stage a layer wider than the canvas is held at \<open>x = 0\<close>, which
  is to the right of \<open>canvasWidth - width\<close>.
\<close>

theorem drag_outside_bounds_counterexample:
  "img_x (dragMove_expanded [sampleLayer ''A'' 50 50] (0, \<lparr>pos_x = - 30, pos_y = 700\<rparr>) ! 0) = - 30
   \<and> img_y (dragMove_expanded [sampleLayer ''A'' 50 50] (0, \<lparr>pos_x = - 30, pos_y = 700\<rparr>) ! 0) = 700
   \<and> \<not> 0 \<le> img_x (dragMove_expanded [sampleLayer ''A'' 50 50]
                        (0, \<lparr>pos_x = - 30, pos_y = 700\<rparr>) ! 0)
   \<and> \<not> img_y (dragMove_expanded [sampleLayer ''A'' 50 50] (0, \<lparr>pos_x = - 30, pos_y = 700\<rparr>) ! 0)
          \<le> 540 - img_height (dragMove_expanded [sampleLayer ''A'' 50 50]
                                 (0, \<lparr>pos_x = - 30, pos_y = 700\<rparr>) ! 0)
   \<and> img_x (dragMove (Some \<lparr>stage_width = stageWidth_fitted 960,
                              stage_height = stageHeight_fitted 540, transformers = [True]\<rparr>)
              [(sampleLayer ''A'' 50 50)\<lparr>img_width := 1200\<rparr>]
              (0, \<lparr>pos_x = 10, pos_y = 10\<rparr>) ! 0) = 0
   \<and> \<not> img_x (dragMove (Some \<lparr>stage_width = stageWidth_fitted 960,
                              stage_height = stageHeight_fitted 540, transformers = [True]\<rparr>)
              [(sampleLayer ''A'' 50 50)\<lparr>img_width := 1200\<rparr>]
              (0, \<lparr>pos_x = 10, pos_y = 10\<rparr>) ! 0)
          \<le> 960 - img_width (dragMove (Some \<lparr>stage_width = stageWidth_fitted 960,
                              stage_height = stageHeight_fitted 540, transformers = [True]\<rparr>)
              [(sampleLayer ''A'' 50 50)\<lparr>img_width := 1200\<rparr>]
              (0, \<lparr>pos_x = 10, pos_y = 10\<rparr>) ! 0)"
  by (simp add: dragMove_expanded_def dragMove_def Let_def onItemsChange_def handleDragMove_def
        itemsOfPage_def dragBoundFunc_def sampleLayer_def stageWidth_fitted_def
        stageHeight_fitted_def)

text \<open>
  Claim C1, amended. In the variant whose stage is as large as the canvas
  (\<open>CanvasEditor.tsx\<close>), for layers with pairwise different ids and after any sequence
  of drag moves, every layer that was dragged lies at \<open>0 \<le> x \<le> max 0 (canvasWidth - width)\<close>
  and \<open>0 \<le> y \<le> max 0 (canvasHeight - height)\<close>, its size unchanged; this is the bound
  \<open>x \<le> canvasWidth - width\<close>, \<open>y \<le> canvasHeight - height\<close> whenever the layer is no
  larger than the canvas.
\<close>

theorem dragMove_clamps_into_stage:
  assumes d: "distinct (map img_id draggable)"
    and valid: "\<forall>ev \<in> set moves. fst ev < length draggable"
    and moved: "i \<in> fst ` set moves"
    and sw: "stage_width stage = stageWidth_fitted width"
    and sh: "stage_height stage = stageHeight_fitted height"
  shows "0 \<le> img_x (foldl (dragMove (Some stage)) draggable moves ! i)
       \<and> img_x (foldl (dragMove (Some stage)) draggable moves ! i)
           \<le> max 0 (width - img_width (foldl (dragMove (Some stage)) draggable moves ! i))
       \<and> 0 \<le> img_y (foldl (dragMove (Some stage)) draggable moves ! i)
       \<and> img_y (foldl (dragMove (Some stage)) draggable moves ! i)
           \<le> max 0 (height - img_height (foldl (dragMove (Some stage)) draggable moves ! i))
       \<and> img_width (foldl (dragMove (Some stage)) draggable moves ! i)
           = img_width (draggable ! i)
       \<and> img_height (foldl (dragMove (Some stage)) draggable moves ! i)
           = img_height (draggable ! i)"
proof -
  let ?f = "foldl (dragMove (Some stage)) draggable moves"
  from sw sh have sw': "stage_width stage = width" and sh': "stage_height stage = height"
    by (simp_all add: stageWidth_fitted_def stageHeight_fitted_def)
  from dragMoves_invariant [OF d sw' sh' valid] moved
  have "withinDragBounds width height (?f ! i)" by blast
  moreover from valid moved have i: "i < length draggable" by auto
  have "map img_width ?f = map img_width draggable"
    by (induction moves rule: rev_induct) (simp_all add: dragMove_widths)
  then have "img_width (?f ! i) = img_width (draggable ! i)"
    using i by (rule nth_of_map_eq)
  moreover have "map img_height ?f = map img_height draggable"
    by (induction moves rule: rev_induct) (simp_all add: dragMove_heights)
  then have "img_height (?f ! i) = img_height (draggable ! i)"
    using i by (rule nth_of_map_eq)
  ultimately show ?thesis by (simp add: withinDragBounds_def)
qed

theorem dragMove_clamps_into_stage_witness:
  "distinct (map img_id [sampleLayer ''A'' 50 50, sampleLayer ''B'' 60 60])
   \<and> list_all (\<lambda>ev. fst ev < length [sampleLayer ''A'' 50 50, sampleLayer ''B'' 60 60])
        [(1, \<lparr>pos_x = 2000, pos_y = - 40\<rparr>), (0::nat, \<lparr>pos_x = 300, pos_y = 500\<rparr>)]
   \<and> 1 \<in> fst ` set [(1, \<lparr>pos_x = 2000, pos_y = - 40\<rparr>), (0::nat, \<lparr>pos_x = 300, pos_y = 500\<rparr>)]
   \<and> img_x (foldl (dragMove (Some \<lparr>stage_width = stageWidth_fitted 960,
                                     stage_height = stageHeight_fitted 540,
                                     transformers = [True]\<rparr>))
               [sampleLayer ''A'' 50 50, sampleLayer ''B'' 60 60]
               [(1, \<lparr>pos_x = 2000, pos_y = - 40\<rparr>), (0, \<lparr>pos_x = 300, pos_y = 500\<rparr>)] ! 1) = 840
   \<and> img_y (foldl (dragMove (Some \<lparr>stage_width = stageWidth_fitted 960,
                                     stage_height = stageHeight_fitted 540,
                                     transformers = [True]\<rparr>))
               [sampleLayer ''A'' 50 50, sampleLayer ''B'' 60 60]
               [(1, \<lparr>pos_x = 2000, pos_y = - 40\<rparr>), (0, \<lparr>pos_x = 300, pos_y = 500\<rparr>)] ! 1) = 0"
  using dragMove_clamps_into_stage
    [of "[sampleLayer ''A'' 50 50, sampleLayer ''B'' 60 60]"
        "[(1, \<lparr>pos_x = 2000, pos_y = - 40\<rparr>), (0, \<lparr>pos_x = 300, pos_y = 500\<rparr>)]"
        1
        "\<lparr>stage_width = stageWidth_fitted 960, stage_height = stageHeight_fitted 540,
          transformers = [True]\<rparr>" 960 540]
  by (simp add: dragMove_def Let_def onItemsChange_def handleDragMove_def
        itemsOfPage_def dragBoundFunc_def sampleLayer_def stageWidth_fitted_def
        stageHeight_fitted_def)

section \<open>Adding and removing layers\<close>

text \<open>The decimal digits determine the number.\<close>

lemma digit_char_inj:
  assumes "d < 10" and "e < 10" and "digit_char d = digit_char e"
  shows "d = e"
proof -
  have dist: "distinct ''0123456789''" by simp
  have len: "length ''0123456789'' = 10" by simp
  from assms(3) have "''0123456789'' ! d = ''0123456789'' ! e" by (simp only: digit_char_def)
  with dist assms(1,2) len show ?thesis by (simp only: nth_eq_iff_index_eq)
qed

lemma string_of_nat_small: "n < 10 \<Longrightarrow> string_of_nat n = [digit_char n]"
  by (simp add: string_of_nat.simps)

lemma string_of_nat_large:
  "\<not> n < 10 \<Longrightarrow> string_of_nat n = string_of_nat (n div 10) @ [digit_char (n mod 10)]"
  by (subst string_of_nat.simps) simp

lemma string_of_nat_nonempty: "string_of_nat n \<noteq> []"
  by (cases "n < 10") (simp_all add: string_of_nat_small string_of_nat_large)

lemma string_of_nat_inj: "string_of_nat n = string_of_nat m \<Longrightarrow> n = m"
proof (induction n arbitrary: m rule: string_of_nat.induct)
  case (1 n)
  show ?case
  proof (cases "n < 10")
    case nsmall: True
    show ?thesis
    proof (cases "m < 10")
      case True
      with nsmall "1.prems" have "digit_char n = digit_char m"
        by (simp add: string_of_nat_small)
      with nsmall True show ?thesis by (rule digit_char_inj)
    next
      case False
      with nsmall "1.prems" have "[digit_char n] = string_of_nat (m div 10) @ [digit_char (m mod 10)]"
        by (simp add: string_of_nat_small string_of_nat_large)
      then have "string_of_nat (m div 10) = []" by simp
      then show ?thesis by (simp add: string_of_nat_nonempty)
    qed
  next
    case nlarge: False
    show ?thesis
    proof (cases "m < 10")
      case True
      with nlarge "1.prems" have "string_of_nat (n div 10) @ [digit_char (n mod 10)] = [digit_char m]"
        by (simp add: string_of_nat_small string_of_nat_large)
      then have "string_of_nat (n div 10) = []" by simp
      then show ?thesis by (simp add: string_of_nat_nonempty)
    next
      case False
      with nlarge "1.prems"
      have "string_of_nat (n div 10) @ [digit_char (n mod 10)]
              = string_of_nat (m div 10) @ [digit_char (m mod 10)]"
        by (simp add: string_of_nat_large)
      then have hi: "string_of_nat (n div 10) = string_of_nat (m div 10)"
        and lo: "digit_char (n mod 10) = digit_char (m mod 10)"
        by simp_all
      from "1.IH" [OF nlarge hi] have q: "n div 10 = m div 10" .
      have "n mod 10 < 10" and "m mod 10 < 10" by simp_all
      then have r: "n mod 10 = m mod 10" using lo by (rule digit_char_inj)
      have "n = 10 * (n div 10) + n mod 10" by simp
      also have "\<dots> = 10 * (m div 10) + m mod 10" using q r by simp
      also have "\<dots> = m" by simp
      finally show ?thesis .
    qed
  qed
qed

lemma uniqueInOrder_set: "set (uniqueInOrder xs) = set xs"
  by (induction xs) auto

lemma filter_url_empty:
  "u \<notin> img_url ` set imgs \<Longrightarrow> filter (\<lambda>img. img_url img = u) imgs = []"
  by (induction imgs) auto

lemma countMap_fold:
  "fold countStep imgs m u
     = (if u \<in> img_url ` set imgs
        then Some ((case m u of None \<Rightarrow> 0 | Some c \<Rightarrow> c)
                     + length (filter (\<lambda>img. img_url img = u) imgs))
        else m u)"
proof (induction imgs arbitrary: m)
  case Nil
  show ?case by simp
next
  case (Cons a as)
  have step: "fold countStep (a # as) m u = fold countStep as (countStep a m) u" by simp
  show ?case
  proof (cases "img_url a = u")
    case True
    then have "countStep a m u = Some ((case m u of None \<Rightarrow> 0 | Some c \<Rightarrow> c) + 1)"
      by (simp add: countStep_def)
    with True show ?thesis unfolding step Cons.IH by (simp add: filter_url_empty)
  next
    case False
    then have "countStep a m u = m u" by (simp add: countStep_def)
    with False show ?thesis unfolding step Cons.IH by (simp add: filter_url_empty)
  qed
qed

lemma getInstanceCount_count:
  "getInstanceCount imgs u = length (filter (\<lambda>img. img_url img = u) imgs)"
  by (simp add: getInstanceCount_def countMap_def countMap_fold filter_url_empty)

text \<open>
  What \<open>addToMoodboard\<close> does: it appends exactly one layer at the end of the list, with
  \<open>x = 50 + 300 * r1\<close> in \<open>[50, 350)\<close> and \<open>y = 50 + 200 * r2\<close> in \<open>[50, 250)\<close> for
  the two results of \<open>Math.random()\<close>, width and height 120, no rotation and no flip
  (drawn as rotation 0, not mirrored). Adding the same URL twice to an empty scene gives
  two layers with that URL and an instance count of 2. The two ids are built from the two
  readings of \<open>Date.now()\<close> and are equal when the readings are.
\<close>

lemma addToMoodboard_appends_one_layer:
  assumes "0 \<le> r1" and "r1 < 1" and "0 \<le> r2" and "r2 < 1"
  shows "draggableImages (addToMoodboard now r1 r2 u st)
           = draggableImages st
             @ [\<lparr>img_id = u @ ''-'' @ string_of_nat now, img_url = u,
                 img_x = 50 + 300 * r1, img_y = 50 + 200 * r2,
                 img_width = 120, img_height = 120,
                 img_rotation = None, img_flipHorizontal = None\<rparr>]
       \<and> 50 \<le> img_x (last (draggableImages (addToMoodboard now r1 r2 u st)))
       \<and> img_x (last (draggableImages (addToMoodboard now r1 r2 u st))) < 350
       \<and> 50 \<le> img_y (last (draggableImages (addToMoodboard now r1 r2 u st)))
       \<and> img_y (last (draggableImages (addToMoodboard now r1 r2 u st))) < 250
       \<and> item_rotation (last (itemsOfPage (draggableImages (addToMoodboard now r1 r2 u st))))
           = Some 0
       \<and> item_flipHorizontal (last (itemsOfPage (draggableImages (addToMoodboard now r1 r2 u st))))
           = Some False
       \<and> map img_url (draggableImages (addToMoodboard now' r3 r4 u
                          (addToMoodboard now r1 r2 u emptyPage))) = [u, u]
       \<and> getInstanceCount (draggableImages (addToMoodboard now' r3 r4 u
                          (addToMoodboard now r1 r2 u emptyPage))) u = 2
       \<and> (img_id (draggableImages (addToMoodboard now' r3 r4 u
                          (addToMoodboard now r1 r2 u emptyPage)) ! 0)
            = img_id (draggableImages (addToMoodboard now' r3 r4 u
                          (addToMoodboard now r1 r2 u emptyPage)) ! 1))
           = (now = now')"
proof -
  have ids: "(string_of_nat now = string_of_nat now') = (now = now')"
    using string_of_nat_inj by blast
  from assms show ?thesis
    by (simp add: addToMoodboard_def emptyPage_def Let_def getInstanceCount_count
          itemsOfPage_def ids)
qed

text \<open>
  Claim C5 fails on the code. The id of a new layer is the URL, a dash and the reading of
  \<open>Date.now()\<close>; two calls for the same URL that read the same millisecond give two
  layers with one id, although the layers are at different positions. Every operation
  that finds a layer by its id then reaches both: a drag of the second layer moves the
  first one as well.
\<close>

theorem addToMoodboard_same_timestamp_same_id:
  "map img_id (draggableImages
      (addToMoodboard 1762100000123 (1 / 2) (1 / 4) ''chair.png''
        (addToMoodboard 1762100000123 0 0 ''chair.png'' emptyPage)))
     = [''chair.png-1762100000123'', ''chair.png-1762100000123'']
   \<and> map (\<lambda>d. (img_x d, img_y d)) (draggableImages
      (addToMoodboard 1762100000123 (1 / 2) (1 / 4) ''chair.png''
        (addToMoodboard 1762100000123 0 0 ''chair.png'' emptyPage)))
     = [(50, 50), (200, 100)]
   \<and> map (\<lambda>d. (img_x d, img_y d))
        (dragMove (Some \<lparr>stage_width = stageWidth_fitted 960,
                          stage_height = stageHeight_fitted 540, transformers = [True]\<rparr>)
           (draggableImages
             (addToMoodboard 1762100000123 (1 / 2) (1 / 4) ''chair.png''
               (addToMoodboard 1762100000123 0 0 ''chair.png'' emptyPage)))
           (1, \<lparr>pos_x = 400, pos_y = 300\<rparr>))
     = [(400, 300), (400, 300)]"
  by (simp add: addToMoodboard_def emptyPage_def Let_def string_of_nat.simps digit_char_def
        dragMove_def onItemsChange_def handleDragMove_def itemsOfPage_def dragBoundFunc_def
        stageWidth_fitted_def stageHeight_fitted_def)

text \<open>
  Claim C10. \<open>removeFromMoodboard\<close> removes every layer with the given URL in one call
  (no layer with that URL is left, the instance count is 0), keeps all other layers in
  their order, leaves the background as it is, and the URL is not among the selected URLs
  afterwards, also after the effect that recomputes them from the layers.
\<close>

theorem removeFromMoodboard_removes_every_instance:
  "u \<notin> img_url ` set (draggableImages (removeFromMoodboard u st))
   \<and> getInstanceCount (draggableImages (removeFromMoodboard u st)) u = 0
   \<and> filter (\<lambda>img. img_url img \<noteq> u) (draggableImages (removeFromMoodboard u st))
        = filter (\<lambda>img. img_url img \<noteq> u) (draggableImages st)
   \<and> draggableImages (removeFromMoodboard u st)
        = filter (\<lambda>img. img_url img \<noteq> u) (draggableImages st)
   \<and> subseq (draggableImages (removeFromMoodboard u st)) (draggableImages st)
   \<and> backgroundImage (removeFromMoodboard u st) = backgroundImage st
   \<and> u \<notin> set (selectedImageUrls (removeFromMoodboard u st))
   \<and> u \<notin> set (selectedImageUrls (syncSelectedImageUrls (removeFromMoodboard u st)))"
proof -
  have "u \<notin> img_url ` set (filter (\<lambda>img. img_url img \<noteq> u) (draggableImages st))" by auto
  moreover have "filter (\<lambda>img. img_url img = u) (filter (\<lambda>img. img_url img \<noteq> u) (draggableImages st)) = []"
    by (simp add: filter_empty_conv)
  ultimately show ?thesis
    by (simp add: removeFromMoodboard_def syncSelectedImageUrls_def uniqueInOrder_set
          getInstanceCount_count)
qed

section \<open>Export\<close>

text \<open>
  Claim C3. Whenever \<open>doExport\<close> runs on a mounted stage of any size and returns, it
  has made exactly two read-back requests, both for the rectangle at \<open>(0, 0)\<close> of the
  canvas width and height and at pixel ratio 2: one for \<open>image/png\<close> without a quality
  and one for \<open>image/jpeg\<close> at quality 0.95. The two data URLs are read from the stage
  with its transformers hidden and are what \<open>onExport\<close> receives.
\<close>

theorem doExport_requests:
  assumes "doExport toDataURL width height onExport (Some stage) = (stage', requests, Inr calls)"
  shows "requests =
           [\<lparr>cfg_pixelRatio = 2, cfg_mimeType = ''image/png'', cfg_quality = None,
              cfg_x = 0, cfg_y = 0, cfg_width = width, cfg_height = height\<rparr>,
            \<lparr>cfg_pixelRatio = 2, cfg_mimeType = ''image/jpeg'', cfg_quality = Some (95 / 100),
              cfg_x = 0, cfg_y = 0, cfg_width = width, cfg_height = height\<rparr>]
       \<and> (\<exists>png jpeg.
             toDataURL (stage\<lparr>transformers := map (\<lambda>t. False) (transformers stage)\<rparr>)
               (requests ! 0) = Inr png
           \<and> toDataURL (stage\<lparr>transformers := map (\<lambda>t. False) (transformers stage)\<rparr>)
               (requests ! 1) = Inr jpeg
           \<and> calls = (if onExport then [(png, jpeg)] else []))"
  using assms
  by (auto simp: doExport_def Let_def split: sum.splits)

text \<open>On the enlarged stage of 1440 by 810 for a canvas of 960 by 540.\<close>

theorem doExport_requests_witness:
  "doExport (\<lambda>st cfg. Inr (cfg_mimeType cfg)) 960 540 True
      (Some \<lparr>stage_width = stageWidth_expanded 960, stage_height = stageHeight_expanded 540,
             transformers = [True]\<rparr>)
     = (Some \<lparr>stage_width = 1440, stage_height = 810, transformers = [True]\<rparr>,
        [\<lparr>cfg_pixelRatio = 2, cfg_mimeType = ''image/png'', cfg_quality = None,
           cfg_x = 0, cfg_y = 0, cfg_width = 960, cfg_height = 540\<rparr>,
         \<lparr>cfg_pixelRatio = 2, cfg_mimeType = ''image/jpeg'', cfg_quality = Some (95 / 100),
           cfg_x = 0, cfg_y = 0, cfg_width = 960, cfg_height = 540\<rparr>],
        Inr [(''image/png'', ''image/jpeg'')])"
  using doExport_requests
    [of "\<lambda>st cfg. Inr (cfg_mimeType cfg)" 960 540 True
        "\<lparr>stage_width = stageWidth_expanded 960, stage_height = stageHeight_expanded 540,
          transformers = [True]\<rparr>"
        "Some \<lparr>stage_width = 1440, stage_height = 810, transformers = [True]\<rparr>"
        "[\<lparr>cfg_pixelRatio = 2, cfg_mimeType = ''image/png'', cfg_quality = None,
           cfg_x = 0, cfg_y = 0, cfg_width = 960, cfg_height = 540\<rparr>,
         \<lparr>cfg_pixelRatio = 2, cfg_mimeType = ''image/jpeg'', cfg_quality = Some (95 / 100),
           cfg_x = 0, cfg_y = 0, cfg_width = 960, cfg_height = 540\<rparr>]"
        "[(''image/png'', ''image/jpeg'')]"]
  by (simp add: doExport_def Let_def stageWidth_expanded_def stageHeight_expanded_def)

text \<open>
  Claim C4 fails on the code. \<open>doExport\<close> restores the transformers only after both
  calls of \<open>toDataURL\<close> have returned; when the first one throws, the function is left
  with the transformer still hidden.
\<close>

theorem doExport_throw_leaves_hidden:
  "doExport (\<lambda>st cfg. Inl (Thrown ''SecurityError'')) 960 540 True
       (Some \<lparr>stage_width = 960, stage_height = 540, transformers = [True]\<rparr>)
     = (Some \<lparr>stage_width = 960, stage_height = 540, transformers = [False]\<rparr>,
        [\<lparr>cfg_pixelRatio = 2, cfg_mimeType = ''image/png'', cfg_quality = None,
           cfg_x = 0, cfg_y = 0, cfg_width = 960, cfg_height = 540\<rparr>],
        Inl (Thrown ''SecurityError''))"
  by (simp add: doExport_def Let_def)

text \<open>
  An export that follows an export from the state the first one left makes the same
  requests on the same stage and leaves the stage as the first one left it. Here
  \<open>toDataURL\<close> is a function of the stage and the request, so this says nothing about
  the bytes a browser produces.
\<close>

lemma doExport_again:
  "doExport toDataURL width height onExport
          (fst (doExport toDataURL width height onExport stageRef))
     = doExport toDataURL width height onExport stageRef"
proof (cases stageRef)
  case None
  then show ?thesis by (simp add: doExport_def)
next
  case (Some stage)
  then show ?thesis
    by (simp add: doExport_def Let_def map_nth comp_def split: sum.splits)
qed

section \<open>The export token\<close>

text \<open>An absent token (\<open>null\<close> or \<open>undefined\<close>) changes nothing and exports nothing.\<close>

lemma exportEffect_null:
  "exportEffect toDataURL width height onExport refs None = (refs, None)"
  by (cases refs) (simp add: exportEffect_def Let_def)

lemma doExport_success_restores:
  assumes "snd (snd (doExport toDataURL width height onExport (Some stage))) = Inr calls"
  shows "fst (doExport toDataURL width height onExport (Some stage)) = Some stage"
  using assms
  by (simp add: doExport_def Let_def map_nth split: sum.splits)

lemma exportEffect_step:
  assumes "fst (doExport toDataURL width height onExport (Some stage)) = Some stage"
  shows "exportEffect toDataURL width height onExport (Some p, Some stage) (Some t)
           = ((Some t, Some stage),
              if t \<noteq> p then Some (snd (doExport toDataURL width height onExport (Some stage)))
              else None)"
  using assms by (simp add: exportEffect_def Let_def)

lemma observeTokens_after_first:
  assumes st: "fst (doExport toDataURL width height onExport (Some stage)) = Some stage"
  shows "i < length ts \<Longrightarrow>
         observeTokens toDataURL width height onExport (Some p, Some stage) (map Some ts) ! i
           = (if ts ! i \<noteq> (if i = 0 then p else ts ! (i - 1))
              then Some (snd (doExport toDataURL width height onExport (Some stage)))
              else None)"
proof (induction ts arbitrary: p i)
  case Nil
  then show ?case by simp
next
  case (Cons t ts)
  show ?case
  proof (cases i)
    case 0
    then show ?thesis by (simp add: exportEffect_step [OF st] Let_def)
  next
    case (Suc j)
    with Cons.prems have j: "j < length ts" by simp
    from Cons.IH [OF j, of t] Suc show ?thesis
      by (cases j) (simp_all add: exportEffect_step [OF st] Let_def)
  qed
qed

text \<open>
  Claim C8. Let the editor observe the token values \<open>tokens\<close> in order after it mounts, on
  a stage whose export succeeds with the data URLs \<open>png\<close> and \<open>jpeg\<close>. The first
  observation exports nothing. Every later observation calls \<open>onExport\<close> exactly once,
  with \<open>(png, jpeg)\<close>, if the token differs from the one observed before it, and
  exports nothing if the token is unchanged.
\<close>

theorem export_once_per_token_change:
  assumes ok: "snd (snd (doExport toDataURL width height True (Some stage))) = Inr [(png, jpeg)]"
    and i: "i < length tokens"
  shows "map_option snd
           (observeTokens toDataURL width height True (None, Some stage) (map Some tokens) ! i)
         = (if 0 < i \<and> tokens ! i \<noteq> tokens ! (i - 1) then Some (Inr [(png, jpeg)]) else None)"
proof -
  from ok have st: "fst (doExport toDataURL width height True (Some stage)) = Some stage"
    by (rule doExport_success_restores)
  from i obtain t ts where tokens: "tokens = t # ts" by (cases tokens) auto
  have first: "exportEffect toDataURL width height True (None, Some stage) (Some t)
                 = ((Some t, Some stage), None)"
    by (simp add: exportEffect_def Let_def)
  show ?thesis
  proof (cases i)
    case 0
    with tokens first show ?thesis by (simp add: Let_def)
  next
    case (Suc j)
    with i tokens have j: "j < length ts" by simp
    from observeTokens_after_first [OF st j, of t] ok Suc tokens first show ?thesis
      by (cases j) (simp_all add: Let_def)
  qed
qed

theorem export_once_per_token_change_witness:
  "snd (snd (doExport (\<lambda>st cfg. Inr (cfg_mimeType cfg)) 960 540 True
               (Some \<lparr>stage_width = 960, stage_height = 540, transformers = [True]\<rparr>)))
     = Inr [(''image/png'', ''image/jpeg'')]
   \<and> 1 < length [0, 1, 1, 2 :: real]
   \<and> map (map_option snd)
        (observeTokens (\<lambda>st cfg. Inr (cfg_mimeType cfg)) 960 540 True
           (None, Some \<lparr>stage_width = 960, stage_height = 540, transformers = [True]\<rparr>)
           (map Some [0, 1, 1, 2]))
     = [None, Some (Inr [(''image/png'', ''image/jpeg'')]), None,
        Some (Inr [(''image/png'', ''image/jpeg'')])]"
  using export_once_per_token_change
    [of "\<lambda>st cfg. Inr (cfg_mimeType cfg)" 960 540
        "\<lparr>stage_width = 960, stage_height = 540, transformers = [True]\<rparr>"
        "''image/png''" "''image/jpeg''" 1 "[0, 1, 1, 2]"]
  by (simp add: doExport_def exportEffect_def Let_def)

section \<open>Masking\<close>

text \<open>No layer of the rendered tree has a clip function, in any mask mode.\<close>

lemma renderLayers_unclipped:
  "map layer_clipFunc (renderLayers loaded width height background items maskMode polygonPoints)
     = (if maskMode = mask_polygon then [None, None, None, None] else [None, None, None])"
  by (simp add: renderLayers_def)

text \<open>
  Claim C2 fails on the code. In polygon mode with the triangle \<open>(0,0), (100,0), (0,100)\<close>
  \<open>itemsClipFunc\<close> builds the closed clip path, but the tree the component renders
  attaches it to no layer: the image at \<open>(500, 300)\<close>, outside the triangle, is a child
  of an unclipped layer, and the outline of the polygon is drawn on top.
\<close>

theorem polygon_clip_never_attached:
  "itemsClipFunc mask_polygon
      (polygonKonvaPoints [\<lparr>pos_x = 0, pos_y = 0\<rparr>, \<lparr>pos_x = 100, pos_y = 0\<rparr>,
                           \<lparr>pos_x = 0, pos_y = 100\<rparr>]) False
     = Some [BeginPath, MoveTo 0 0, LineTo 100 0, LineTo 0 100, ClosePath]
   \<and> renderLayers (\<lambda>url. True) 960 540 None (itemsOfPage [sampleLayer ''A'' 500 300])
        mask_polygon [\<lparr>pos_x = 0, pos_y = 0\<rparr>, \<lparr>pos_x = 100, pos_y = 0\<rparr>,
                      \<lparr>pos_x = 0, pos_y = 100\<rparr>]
     = [\<lparr>layer_clipFunc = None, layer_children = []\<rparr>,
        \<lparr>layer_clipFunc = None,
         layer_children = [KonvaImage True 500 300 120 120 0 1, Transformer]\<rparr>,
        \<lparr>layer_clipFunc = None, layer_children = []\<rparr>,
        \<lparr>layer_clipFunc = None,
         layer_children = [Line [0, 0, 100, 0, 0, 100], Rect 0 0 960 540]\<rparr>]"
  by (simp add: itemsClipFunc_def polygonKonvaPoints_def renderLayers_def itemsOfPage_def
        sampleLayer_def)

end
